theory Spec2Isabelle
  imports Main
begin

section \<open>Environment helpers of the NestJS GraphQL boilerplate\<close>

text \<open>
  The development embeds \<^verbatim>\<open>src/common/helper/env.helper.ts\<close>: the path resolver
  \<^verbatim>\<open>getEnvPath\<close> and the normalizer \<^verbatim>\<open>processEnvVars\<close>.
\<close>

subsection \<open>JavaScript values\<close>

text \<open>
  A configuration mapping is a \<^verbatim>\<open>Record<string, unknown>\<close>: its values are arbitrary
  JavaScript values. Objects live in a store and a value refers to one by its address, so
  that copying a mapping (the spread) and writing to the copy can be told apart from
  writing to the original. Numbers are kept as far as the code can tell them apart, which
  is by truthiness only: an integer (zero is falsy) or NaN (falsy); every other number
  behaves like a non-zero integer.
\<close>

type_synonym addr = nat

datatype jsval =
    JUndefined
  | JNull
  | JBool bool
  | JNum int
  | JNaN
  | JStr string
  | JObject addr
  | JFunction addr

datatype error = TypeError

type_synonym obj = "string \<rightharpoonup> jsval"

type_synonym heap = "obj list"

text \<open>JavaScript's ToBoolean, which \<^verbatim>\<open>if (v)\<close>, \<^verbatim>\<open>v && w\<close> and \<^verbatim>\<open>c ? a : b\<close> apply.\<close>

fun truthy :: "jsval \<Rightarrow> bool" where
  "truthy JUndefined = False"
| "truthy JNull = False"
| "truthy (JBool b) = b"
| "truthy (JNum n) = (n \<noteq> 0)"
| "truthy JNaN = False"
| "truthy (JStr s) = (s \<noteq> [])"
| "truthy (JObject a) = True"
| "truthy (JFunction a) = True"

text \<open>The \<^verbatim>\<open>typeof\<close> operator.\<close>

fun typeof :: "jsval \<Rightarrow> string" where
  "typeof JUndefined = ''undefined''"
| "typeof JNull = ''object''"
| "typeof (JBool b) = ''boolean''"
| "typeof (JNum n) = ''number''"
| "typeof JNaN = ''number''"
| "typeof (JStr s) = ''string''"
| "typeof (JObject a) = ''object''"
| "typeof (JFunction a) = ''function''"

subsection \<open>The object store\<close>

text \<open>
  The store is the list of the objects allocated so far; an address is an index into it.
  An address beyond the store holds no property, which is also what spreading
  \<^verbatim>\<open>undefined\<close> gives. Reading a property that the object does not have yields
  \<^verbatim>\<open>undefined\<close>; the six names the code reads are not properties of
  \<^verbatim>\<open>Object.prototype\<close>, so the prototype chain is left out.
\<close>

definition deref :: "heap \<Rightarrow> addr \<Rightarrow> obj" where
  "deref h a = (if a < length h then h ! a else Map.empty)"

definition getProp :: "heap \<Rightarrow> addr \<Rightarrow> string \<Rightarrow> jsval" where
  "getProp h a k = (case deref h a k of None \<Rightarrow> JUndefined | Some v \<Rightarrow> v)"

definition setProp :: "heap \<Rightarrow> addr \<Rightarrow> string \<Rightarrow> jsval \<Rightarrow> heap" where
  "setProp h a k v = h[a := (deref h a)(k \<mapsto> v)]"

definition deleteProp :: "heap \<Rightarrow> addr \<Rightarrow> string \<Rightarrow> heap" where
  "deleteProp h a k = h[a := (deref h a)(k := None)]"

text \<open>
  \<^verbatim>\<open>{ ...config }\<close> allocates a new object holding the own properties of
  \<^verbatim>\<open>config\<close>: a shallow copy. Properties are data properties; accessors and proxies,
  whose reads run code, are outside the model.
\<close>

definition spread :: "heap \<Rightarrow> addr \<Rightarrow> heap \<times> addr" where
  "spread h a = (h @ [deref h a], length h)"

subsection \<open>Replacing escaped newlines\<close>

definition backslash :: char where
  "backslash = CHR 0x5C"

definition newline :: char where
  "newline = CHR 0x0A"

text \<open>
  \<^verbatim>\<open>s.replace(/\\n/g, '\n')\<close>: the pattern is a backslash followed by the letter n; the
  global flag replaces every match, found from left to right, a match starting after the
  end of the one before. The pattern has no \<^verbatim>\<open>u\<close> flag, so it matches code units;
  both characters of the pattern and the newline are single code units, and a string is
  modelled as the list of its units.
\<close>

fun replaceNewlines :: "string \<Rightarrow> string" where
  "replaceNewlines [] = []"
| "replaceNewlines [c] = [c]"
| "replaceNewlines (c # d # cs) =
     (if c = backslash \<and> d = CHR ''n'' then newline # replaceNewlines cs
      else c # replaceNewlines (d # cs))"

text \<open>
  The method call \<^verbatim>\<open>(v as string).replace(...)\<close>. The cast is erased when the code is
  compiled, so the call is a string's \<^verbatim>\<open>replace\<close> only when the receiver is a string;
  on any other receiver it is taken to throw.
\<close>

fun callReplace :: "jsval \<Rightarrow> error + jsval" where
  "callReplace (JStr s) = Inr (JStr (replaceNewlines s))"
| "callReplace v = Inl TypeError"

subsection \<open>The path resolver\<close>

text \<open>
  \<^verbatim>\<open>getEnvPath(dest)\<close> reads \<^verbatim>\<open>process.env.NODE_ENV\<close>, a string or
  \<^verbatim>\<open>undefined\<close>, which is the argument \<open>env\<close> here. \<^verbatim>\<open>resolve\<close> is Node's
  \<^verbatim>\<open>path.resolve\<close>, a library function whose result depends on the platform and on the
  working directory: it is a parameter, and it may throw.
\<close>

definition filename :: "string option \<Rightarrow> string" where
  "filename env =
     (case env of
        None \<Rightarrow> ''.development.env''
      | Some e \<Rightarrow> if truthy (JStr e) then ''.'' @ e @ ''.env'' else ''.development.env'')"

definition getEnvPath :: "(string \<Rightarrow> error + string) \<Rightarrow> string option \<Rightarrow> string \<Rightarrow> error + string" where
  "getEnvPath resolve env dest = resolve (dest @ ''/'' @ filename env)"

subsection \<open>The normalizer\<close>

definition multilineVars :: "string list" where
  "multilineVars =
     [''JWT_PRIVATE_KEY'', ''JWT_PUBLIC_KEY'', ''JWT_REFRESH_TOKEN_PRIVATE_KEY'',
      ''jwt_private_key'', ''jwt_public_key'', ''jwt_refresh_token_private_key'']"

text \<open>\<^verbatim>\<open>Array.prototype.forEach\<close>, the callback acting on the store; a throw ends the loop.\<close>

fun forEach :: "'a list \<Rightarrow> ('a \<Rightarrow> heap \<Rightarrow> error + heap) \<Rightarrow> heap \<Rightarrow> error + heap" where
  "forEach [] f h = Inr h"
| "forEach (x # xs) f h = (case f x h of Inl e \<Rightarrow> Inl e | Inr h' \<Rightarrow> forEach xs f h')"

text \<open>The callback of the loop over \<^verbatim>\<open>multilineVars\<close>; \<open>processed\<close> is the copy's address.\<close>

definition convertVar :: "addr \<Rightarrow> string \<Rightarrow> heap \<Rightarrow> error + heap" where
  "convertVar processed varName h =
     (if truthy (getProp h processed varName) \<and> typeof (getProp h processed varName) = ''string''
      then (case callReplace (getProp h processed varName) of
              Inl e \<Rightarrow> Inl e
            | Inr v \<Rightarrow> Inr (setProp h processed varName v))
      else Inr h)"

text \<open>
  One of the three statements that follow the loop:
  \<^verbatim>\<open>if (processed.lower) { processed.UPPER = processed.lower; delete processed.lower; }\<close>
\<close>

definition mergeCase :: "addr \<Rightarrow> string \<Rightarrow> string \<Rightarrow> heap \<Rightarrow> heap" where
  "mergeCase processed lower upper h =
     (if truthy (getProp h processed lower)
      then deleteProp (setProp h processed upper (getProp h processed lower)) processed lower
      else h)"

definition processEnvVars :: "heap \<Rightarrow> addr \<Rightarrow> error + heap \<times> addr" where
  "processEnvVars h config =
     (let (h0, processed) = spread h config in
      case forEach multilineVars (convertVar processed) h0 of
        Inl e \<Rightarrow> Inl e
      | Inr h1 \<Rightarrow>
          let h2 = mergeCase processed ''jwt_private_key'' ''JWT_PRIVATE_KEY'' h1;
              h3 = mergeCase processed ''jwt_public_key'' ''JWT_PUBLIC_KEY'' h2;
              h4 = mergeCase processed ''jwt_refresh_token_private_key''
                     ''JWT_REFRESH_TOKEN_PRIVATE_KEY'' h3
          in Inr (h4, processed))"

subsection \<open>What the statements do to the copy\<close>

text \<open>
  The functions of this subsection describe the object that the normalizer builds, as a
  function of the object it was given. They are not part of the code: the lemmas below
  show that the code, run on the store, computes them, and the theorems about the code are
  proved through them.
\<close>

definition propValue :: "obj \<Rightarrow> string \<Rightarrow> jsval" where
  "propValue m k = (case m k of None \<Rightarrow> JUndefined | Some v \<Rightarrow> v)"

definition convertedValue :: "jsval \<Rightarrow> jsval" where
  "convertedValue v = (case v of JStr s \<Rightarrow> JStr (replaceNewlines s) | _ \<Rightarrow> v)"

definition convertedObj :: "string list \<Rightarrow> obj \<Rightarrow> obj" where
  "convertedObj ks m = (\<lambda>k. if k \<in> set ks then map_option convertedValue (m k) else m k)"

definition mergedObj :: "string \<Rightarrow> string \<Rightarrow> obj \<Rightarrow> obj" where
  "mergedObj lower upper m =
     (if truthy (propValue m lower) then (m(upper \<mapsto> propValue m lower))(lower := None) else m)"

definition normalized :: "obj \<Rightarrow> obj" where
  "normalized m =
     mergedObj ''jwt_refresh_token_private_key'' ''JWT_REFRESH_TOKEN_PRIVATE_KEY''
       (mergedObj ''jwt_public_key'' ''JWT_PUBLIC_KEY''
         (mergedObj ''jwt_private_key'' ''JWT_PRIVATE_KEY''
           (convertedObj multilineVars m)))"

text \<open>
  The lowercase name whose value the case merge may write to a targeted key: the key
  itself for a lowercase name, its lowercase counterpart for a canonical one.
\<close>

definition lowerVariant :: "string \<Rightarrow> string" where
  "lowerVariant k =
     (if k = ''JWT_PRIVATE_KEY'' then ''jwt_private_key''
      else if k = ''JWT_PUBLIC_KEY'' then ''jwt_public_key''
      else if k = ''JWT_REFRESH_TOKEN_PRIVATE_KEY'' then ''jwt_refresh_token_private_key''
      else k)"

text \<open>The pairs of a lowercase name and its canonical name, in the order of the code.\<close>

definition caseVariants :: "(string \<times> string) list" where
  "caseVariants =
     [(''jwt_private_key'', ''JWT_PRIVATE_KEY''),
      (''jwt_public_key'', ''JWT_PUBLIC_KEY''),
      (''jwt_refresh_token_private_key'', ''JWT_REFRESH_TOKEN_PRIVATE_KEY'')]"

section \<open>Properties\<close>

subsection \<open>The replacement of escaped newlines\<close>

lemma special_chars_distinct:
  "newline \<noteq> backslash" "newline \<noteq> CHR ''n''" "backslash \<noteq> CHR ''n''"
  by (simp_all add: newline_def backslash_def)

lemma replaceNewlines_Cons_other:
  "c \<noteq> backslash \<Longrightarrow> replaceNewlines (c # cs) = c # replaceNewlines cs"
  by (cases cs) simp_all

lemma replaceNewlines_head:
  "replaceNewlines (d # cs) = d # replaceNewlines cs \<or>
   (\<exists>r. replaceNewlines (d # cs) = newline # r)"
  by (cases cs) simp_all

lemma replaceNewlines_backslash_other:
  "d \<noteq> CHR ''n'' \<Longrightarrow>
   replaceNewlines (backslash # replaceNewlines (d # cs)) =
   backslash # replaceNewlines (replaceNewlines (d # cs))"
  using replaceNewlines_head [of d cs] by (auto simp: special_chars_distinct)

text \<open>The result holds no escaped newline any more: replacing again changes nothing.\<close>

lemma replaceNewlines_idem: "replaceNewlines (replaceNewlines s) = replaceNewlines s"
proof (induction s rule: replaceNewlines.induct)
  case 1
  show ?case by simp
next
  case (2 c)
  show ?case by simp
next
  case (3 c d cs)
  show ?case
  proof (cases "c = backslash \<and> d = CHR ''n''")
    case True
    with 3 show ?thesis by (simp add: replaceNewlines_Cons_other special_chars_distinct)
  next
    case False
    then have step: "replaceNewlines (c # d # cs) = c # replaceNewlines (d # cs)"
      by auto
    from False have IH: "replaceNewlines (replaceNewlines (d # cs)) = replaceNewlines (d # cs)"
      by (rule "3.IH")
    have "replaceNewlines (c # replaceNewlines (d # cs)) =
          c # replaceNewlines (replaceNewlines (d # cs))"
    proof (cases "c = backslash")
      case True
      with False have "d \<noteq> CHR ''n''" by simp
      then have "replaceNewlines (backslash # replaceNewlines (d # cs)) =
                 backslash # replaceNewlines (replaceNewlines (d # cs))"
        by (rule replaceNewlines_backslash_other)
      with True show ?thesis by (simp only:)
    next
      case False
      then show ?thesis by (rule replaceNewlines_Cons_other)
    qed
    with step IH show ?thesis by simp
  qed
qed

lemma replaceNewlines_Nil_iff: "replaceNewlines s = [] \<longleftrightarrow> s = []"
  by (induction s rule: replaceNewlines.induct) auto

subsection \<open>The code computes the described object\<close>

lemma convertedValue_idem: "convertedValue (convertedValue v) = convertedValue v"
  by (cases v) (simp_all add: convertedValue_def replaceNewlines_idem)

lemma truthy_convertedValue: "truthy (convertedValue v) = truthy v"
  by (cases v) (simp_all add: convertedValue_def replaceNewlines_Nil_iff)

lemma deref_last: "deref (h @ [m]) (length h) = m"
  by (simp add: deref_def)

lemma deref_old: "a < length h \<Longrightarrow> deref (h @ [m]) a = deref h a"
  by (simp add: deref_def nth_append)

lemma getProp_last: "getProp (h @ [m]) (length h) k = propValue m k"
  by (simp add: getProp_def propValue_def deref_last)

lemma setProp_last: "setProp (h @ [m]) (length h) k v = h @ [m(k \<mapsto> v)]"
  by (simp add: setProp_def deref_last)

lemma deleteProp_last: "deleteProp (h @ [m]) (length h) k = h @ [m(k := None)]"
  by (simp add: deleteProp_def deref_last)

lemma convertVar_last:
  "convertVar (length h) k (h @ [m]) = Inr (h @ [convertedObj [k] m])"
proof -
  have "m(k \<mapsto> JStr (replaceNewlines s)) = convertedObj [k] m" if "m k = Some (JStr s)" for s
    using that by (auto simp: convertedObj_def convertedValue_def fun_eq_iff)
  moreover have "m = convertedObj [k] m" if "propValue m k = JStr []"
    using that by (auto simp: convertedObj_def convertedValue_def propValue_def fun_eq_iff
        split: option.splits)
  moreover have "m = convertedObj [k] m" if "typeof (propValue m k) \<noteq> ''string''"
    using that by (auto simp: convertedObj_def convertedValue_def propValue_def fun_eq_iff
        split: option.splits jsval.splits)
  ultimately show ?thesis
    by (cases "propValue m k")
      (auto simp: convertVar_def getProp_last setProp_last propValue_def split: option.splits)
qed

lemma convertedObj_Cons:
  "convertedObj ks (convertedObj [k] m) = convertedObj (k # ks) m"
  by (auto simp: convertedObj_def fun_eq_iff convertedValue_idem option.map_comp comp_def
      split: option.splits)

lemma forEach_convertVar_last:
  "forEach ks (convertVar (length h)) (h @ [m]) = Inr (h @ [convertedObj ks m])"
proof (induction ks arbitrary: m)
  case Nil
  show ?case by (simp add: convertedObj_def)
next
  case (Cons k ks)
  show ?case by (simp add: convertVar_last Cons.IH convertedObj_Cons)
qed

lemma mergeCase_last:
  "mergeCase (length h) lower upper (h @ [m]) = h @ [mergedObj lower upper m]"
  by (simp add: mergeCase_def mergedObj_def getProp_last setProp_last deleteProp_last)

text \<open>
  The normalizer returns on every store: it appends one object, the normalized copy, and
  returns its address.
\<close>

lemma processEnvVars_eq:
  "processEnvVars h config = Inr (h @ [normalized (deref h config)], length h)"
  by (simp add: processEnvVars_def spread_def forEach_convertVar_last mergeCase_last
      normalized_def)

subsection \<open>The normalized object, key by key\<close>

lemma convertedValue_falsy: "\<not> truthy v \<Longrightarrow> convertedValue v = v"
  by (cases v) (simp_all add: convertedValue_def)

lemma convertedValue_not_string: "typeof v \<noteq> ''string'' \<Longrightarrow> convertedValue v = v"
  by (cases v) (simp_all add: convertedValue_def)

lemma convertedObj_apply:
  "convertedObj ks m k = (if k \<in> set ks then map_option convertedValue (m k) else m k)"
  by (simp add: convertedObj_def)

lemma propValue_convertedObj:
  "propValue (convertedObj ks m) k =
     (if k \<in> set ks then convertedValue (propValue m k) else propValue m k)"
  by (simp add: propValue_def convertedObj_def convertedValue_def split: option.splits)

lemma map_convertedValue_falsy:
  "\<not> truthy (propValue m k) \<Longrightarrow> map_option convertedValue (m k) = m k"
  by (cases "m k") (simp_all add: propValue_def convertedValue_falsy)

lemma mergedObj_other:
  "k \<noteq> lower \<Longrightarrow> k \<noteq> upper \<Longrightarrow> mergedObj lower upper m k = m k"
  by (simp add: mergedObj_def)

lemma mergedObj_lower:
  "mergedObj lower upper m lower = (if truthy (propValue m lower) then None else m lower)"
  by (simp add: mergedObj_def)

lemma mergedObj_upper:
  "lower \<noteq> upper \<Longrightarrow>
   mergedObj lower upper m upper =
     (if truthy (propValue m lower) then Some (propValue m lower) else m upper)"
  by (simp add: mergedObj_def)

lemma propValue_mergedObj_other:
  "k \<noteq> lower \<Longrightarrow> k \<noteq> upper \<Longrightarrow> propValue (mergedObj lower upper m) k = propValue m k"
  by (simp add: propValue_def mergedObj_other)

lemma normalized_other: "k \<notin> set multilineVars \<Longrightarrow> normalized m k = m k"
  by (simp add: normalized_def mergedObj_other multilineVars_def convertedObj_apply)

lemma normalized_lower:
  assumes "(lower, upper) \<in> set caseVariants"
  shows "normalized m lower = (if truthy (propValue m lower) then None else m lower)"
proof -
  from assms consider
      "lower = ''jwt_private_key''"
    | "lower = ''jwt_public_key''"
    | "lower = ''jwt_refresh_token_private_key''"
    by (auto simp: caseVariants_def)
  then show ?thesis
  proof cases
    case 1
    then show ?thesis
      by (simp add: normalized_def mergedObj_other mergedObj_lower propValue_convertedObj
          truthy_convertedValue convertedObj_apply multilineVars_def map_convertedValue_falsy)
  next
    case 2
    then show ?thesis
      by (simp add: normalized_def mergedObj_other mergedObj_lower propValue_mergedObj_other
          propValue_convertedObj truthy_convertedValue convertedObj_apply multilineVars_def
          map_convertedValue_falsy)
  next
    case 3
    then show ?thesis
      by (simp add: normalized_def mergedObj_other mergedObj_lower propValue_mergedObj_other
          propValue_convertedObj truthy_convertedValue convertedObj_apply multilineVars_def
          map_convertedValue_falsy)
  qed
qed

lemma normalized_upper:
  assumes "(lower, upper) \<in> set caseVariants"
  shows "normalized m upper =
     (if truthy (propValue m lower) then Some (convertedValue (propValue m lower))
      else map_option convertedValue (m upper))"
proof -
  from assms consider
      "lower = ''jwt_private_key''" "upper = ''JWT_PRIVATE_KEY''"
    | "lower = ''jwt_public_key''" "upper = ''JWT_PUBLIC_KEY''"
    | "lower = ''jwt_refresh_token_private_key''" "upper = ''JWT_REFRESH_TOKEN_PRIVATE_KEY''"
    by (auto simp: caseVariants_def)
  then show ?thesis
  proof cases
    case 1
    then show ?thesis
      by (simp add: normalized_def mergedObj_other mergedObj_upper propValue_convertedObj
          truthy_convertedValue convertedObj_apply multilineVars_def)
  next
    case 2
    then show ?thesis
      by (simp add: normalized_def mergedObj_other mergedObj_upper propValue_mergedObj_other
          propValue_convertedObj truthy_convertedValue convertedObj_apply multilineVars_def)
  next
    case 3
    then show ?thesis
      by (simp add: normalized_def mergedObj_other mergedObj_upper propValue_mergedObj_other
          propValue_convertedObj truthy_convertedValue convertedObj_apply multilineVars_def)
  qed
qed

lemma lowerVariant_caseVariants:
  "k \<in> set multilineVars \<Longrightarrow>
   (\<exists>upper. (k, upper) \<in> set caseVariants \<and> lowerVariant k = k) \<or>
   (lowerVariant k, k) \<in> set caseVariants"
  unfolding multilineVars_def
  apply simp
  apply (elim disjE)
  apply (simp_all add: lowerVariant_def caseVariants_def)
  done


lemma normalized_unmerged:
  assumes "k \<in> set multilineVars" and "\<not> truthy (propValue m (lowerVariant k))"
  shows "normalized m k = map_option convertedValue (m k)"
  using lowerVariant_caseVariants [OF assms(1)]
proof
  assume "\<exists>upper. (k, upper) \<in> set caseVariants \<and> lowerVariant k = k"
  then obtain upper where "(k, upper) \<in> set caseVariants" and "lowerVariant k = k"
    by blast
  with assms(2) show ?thesis
    by (simp add: normalized_lower map_convertedValue_falsy)
next
  assume "(lowerVariant k, k) \<in> set caseVariants"
  with assms(2) show ?thesis
    by (simp add: normalized_upper)
qed

lemma getProp_propValue: "getProp h a k = propValue (deref h a) k"
  by (simp add: getProp_def propValue_def)

lemma spread_parts:
  "fst (spread h config) = h @ [deref h config]" "snd (spread h config) = length h"
  by (simp_all add: spread_def)

lemma falsy_lower_normalized:
  "(lower, upper) \<in> set caseVariants \<Longrightarrow> \<not> truthy (propValue (normalized m) lower)"
  by (simp add: propValue_def normalized_lower [of lower upper])

lemma lowerVariant_pair:
  "k \<in> set multilineVars \<Longrightarrow> \<exists>upper. (lowerVariant k, upper) \<in> set caseVariants"
  using lowerVariant_caseVariants [of k] by auto

lemma normalized_fixed:
  assumes "k \<in> set multilineVars"
  shows "map_option convertedValue (normalized m k) = normalized m k"
  using lowerVariant_caseVariants [OF assms]
proof
  assume "\<exists>upper. (k, upper) \<in> set caseVariants \<and> lowerVariant k = k"
  then obtain upper where "(k, upper) \<in> set caseVariants"
    by blast
  then show ?thesis
    by (simp add: normalized_lower map_convertedValue_falsy)
next
  assume "(lowerVariant k, k) \<in> set caseVariants"
  then show ?thesis
    by (simp add: normalized_upper convertedValue_idem option.map_comp comp_def)
qed

lemma normalized_idem: "normalized (normalized m) = normalized m"
proof
  fix k
  show "normalized (normalized m) k = normalized m k"
  proof (cases "k \<in> set multilineVars")
    case True
    then obtain upper where "(lowerVariant k, upper) \<in> set caseVariants"
      using lowerVariant_pair by blast
    then have "\<not> truthy (propValue (normalized m) (lowerVariant k))"
      by (rule falsy_lower_normalized)
    with True have "normalized (normalized m) k = map_option convertedValue (normalized m k)"
      by (rule normalized_unmerged)
    with True show ?thesis
      by (simp add: normalized_fixed)
  next
    case False
    then show ?thesis by (simp add: normalized_other)
  qed
qed

lemma lowerVariant_targeted:
  "k \<in> set multilineVars \<Longrightarrow> lowerVariant k \<in> set multilineVars"
  unfolding multilineVars_def
  apply simp
  apply (elim disjE)
  apply (simp_all add: lowerVariant_def)
  done

lemma map_convertedValue_not_string:
  "typeof (propValue m k) \<noteq> ''string'' \<Longrightarrow> map_option convertedValue (m k) = m k"
  by (cases "m k") (simp_all add: propValue_def convertedValue_not_string)

lemma normalized_untargeted:
  assumes "\<forall>k \<in> set multilineVars. m k = None"
  shows "normalized m = m"
proof
  fix k
  show "normalized m k = m k"
  proof (cases "k \<in> set multilineVars")
    case True
    then have "lowerVariant k \<in> set multilineVars"
      by (rule lowerVariant_targeted)
    with assms have "\<not> truthy (propValue m (lowerVariant k))"
      by (simp add: propValue_def)
    with True have "normalized m k = map_option convertedValue (m k)"
      by (rule normalized_unmerged)
    with True assms show ?thesis by simp
  next
    case False
    then show ?thesis by (rule normalized_other)
  qed
qed

subsection \<open>The path resolver\<close>

text \<open>
  C3. For every base directory \<open>d\<close> and every mode signal \<open>m\<close> that is absent,
  \<^verbatim>\<open>"production"\<close> or \<^verbatim>\<open>"test"\<close>, the path resolver returns what \<^verbatim>\<open>resolve\<close>
  returns on \<open>d\<close>, a slash, a dot, the mode (\<^verbatim>\<open>development\<close> when it is absent) and
  \<^verbatim>\<open>.env\<close>.
\<close>

theorem getEnvPath_named_modes:
  "m \<in> {None, Some ''production'', Some ''test''} \<Longrightarrow>
   getEnvPath resolve m d =
     resolve (d @ ''/.'' @ (case m of None \<Rightarrow> ''development'' | Some e \<Rightarrow> e) @ ''.env'')"
  by (auto simp: getEnvPath_def filename_def)

theorem getEnvPath_named_modes_witness:
  "getEnvPath (\<lambda>p. Inr p) None ''/app'' = Inr ''/app/.development.env'' \<and>
   getEnvPath (\<lambda>p. Inr p) (Some ''production'') ''/app'' = Inr ''/app/.production.env'' \<and>
   getEnvPath (\<lambda>p. Inr p) (Some ''test'') ''/app'' = Inr ''/app/.test.env''"
  using getEnvPath_named_modes [of None "\<lambda>p. Inr p" "''/app''"]
    getEnvPath_named_modes [of "Some ''production''" "\<lambda>p. Inr p" "''/app''"]
    getEnvPath_named_modes [of "Some ''test''" "\<lambda>p. Inr p" "''/app''"]
  by simp

text \<open>
  C10. When the mode signal is present but is the empty string, the path resolver does
  what it does when the signal is absent: it returns what \<^verbatim>\<open>resolve\<close> returns on the
  base directory followed by \<^verbatim>\<open>/.development.env\<close>.
\<close>

theorem getEnvPath_empty_mode:
  "getEnvPath resolve (Some []) d = getEnvPath resolve None d \<and>
   getEnvPath resolve (Some []) d = resolve (d @ ''/.development.env'')"
  by (simp add: getEnvPath_def filename_def)

subsection \<open>The normalizer: replacing escaped newlines\<close>

text \<open>
  C1. For every configuration mapping and each of the six targeted keys whose value is a
  string, the loop over the targeted names leaves the copy with that key bound to the
  value in which every backslash followed by n has become a newline; this is the state
  before the case merge. The final output binds the key to the same string whenever the
  case merge does not rebind it, that is, when the lowercase variant of the key is not
  truthy. At the mapping that binds \<^verbatim>\<open>JWT_PRIVATE_KEY\<close> to a, backslash, n, b the
  output binds it to a, newline, b.
\<close>

theorem processEnvVars_converts_newlines:
  assumes "k \<in> set multilineVars" and "deref h config k = Some (JStr v)"
  shows "(\<exists>h1. forEach multilineVars (convertVar (snd (spread h config))) (fst (spread h config))
            = Inr h1 \<and>
          deref h1 (snd (spread h config)) k = Some (JStr (replaceNewlines v))) \<and>
         (\<not> truthy (getProp h config (lowerVariant k)) \<longrightarrow>
          (\<exists>h' p. processEnvVars h config = Inr (h', p) \<and>
            deref h' p k = Some (JStr (replaceNewlines v))))"
proof (intro conjI impI)
  from assms have "convertedObj multilineVars (deref h config) k = Some (JStr (replaceNewlines v))"
    by (simp add: convertedObj_apply convertedValue_def)
  then
  show "\<exists>h1. forEach multilineVars (convertVar (snd (spread h config))) (fst (spread h config))
            = Inr h1 \<and>
          deref h1 (snd (spread h config)) k = Some (JStr (replaceNewlines v))"
    by (simp add: spread_parts forEach_convertVar_last deref_last)
next
  assume "\<not> truthy (getProp h config (lowerVariant k))"
  then have "\<not> truthy (propValue (deref h config) (lowerVariant k))"
    by (simp add: getProp_propValue)
  with assms(1) have "normalized (deref h config) k = map_option convertedValue (deref h config k)"
    by (rule normalized_unmerged)
  with assms(2)
  show "\<exists>h' p. processEnvVars h config = Inr (h', p) \<and>
            deref h' p k = Some (JStr (replaceNewlines v))"
    by (simp add: processEnvVars_eq deref_last convertedValue_def)
qed

theorem processEnvVars_converts_newlines_witness:
  "(\<exists>h1. forEach multilineVars
            (convertVar (snd (spread [[''JWT_PRIVATE_KEY'' \<mapsto> JStr (''a'' @ [backslash] @ ''nb'')]] 0)))
            (fst (spread [[''JWT_PRIVATE_KEY'' \<mapsto> JStr (''a'' @ [backslash] @ ''nb'')]] 0))
          = Inr h1 \<and>
        deref h1 (snd (spread [[''JWT_PRIVATE_KEY'' \<mapsto> JStr (''a'' @ [backslash] @ ''nb'')]] 0))
          ''JWT_PRIVATE_KEY'' = Some (JStr (''a'' @ [newline] @ ''b''))) \<and>
   (\<exists>h' p. processEnvVars [[''JWT_PRIVATE_KEY'' \<mapsto> JStr (''a'' @ [backslash] @ ''nb'')]] 0
          = Inr (h', p) \<and>
        deref h' p ''JWT_PRIVATE_KEY'' = Some (JStr (''a'' @ [newline] @ ''b'')))"
  using processEnvVars_converts_newlines
    [of "''JWT_PRIVATE_KEY''" "[[''JWT_PRIVATE_KEY'' \<mapsto> JStr (''a'' @ [backslash] @ ''nb'')]]" 0
      "''a'' @ [backslash] @ ''nb''"]
  by (simp add: multilineVars_def deref_def getProp_def lowerVariant_def special_chars_distinct)

text \<open>
  C7, as the code has it. For every configuration mapping and every targeted key whose
  value is not a string (the key is absent, so that reading it gives \<^verbatim>\<open>undefined\<close>,
  or it is bound to a value of another type), the loop over the targeted names attempts no
  replacement: it leaves the copy with the key bound as the input binds it, and absent
  when the input has no such key. What the output holds at the key is then decided by the
  case merge alone:
  \<^item> when the lowercase variant of the key is not truthy, the output binds the key as the
    input does, and leaves it absent when the input does;
  \<^item> when the key is a lowercase name and its value is truthy, the output binds the
    canonical key to that value, unmodified, and does not contain the lowercase key;
  \<^item> when the key is a canonical name and its lowercase variant is truthy, the output
    binds the key to the lowercase variant's value, with its newlines converted when it
    is a string.
\<close>

theorem processEnvVars_keeps_non_strings:
  assumes "k \<in> set multilineVars" and "typeof (getProp h config k) \<noteq> ''string''"
  shows "(\<exists>h1. forEach multilineVars (convertVar (snd (spread h config))) (fst (spread h config))
            = Inr h1 \<and>
          deref h1 (snd (spread h config)) k = deref h config k) \<and>
         (\<not> truthy (getProp h config (lowerVariant k)) \<longrightarrow>
          (\<exists>h' p. processEnvVars h config = Inr (h', p) \<and> deref h' p k = deref h config k)) \<and>
         ((k, upper) \<in> set caseVariants \<and> truthy (getProp h config k) \<longrightarrow>
          (\<exists>h' p. processEnvVars h config = Inr (h', p) \<and>
            deref h' p upper = deref h config k \<and> deref h' p k = None)) \<and>
         ((lower, k) \<in> set caseVariants \<and> truthy (getProp h config lower) \<longrightarrow>
          (\<exists>h' p. processEnvVars h config = Inr (h', p) \<and>
            deref h' p k = Some (convertedValue (getProp h config lower))))"
proof (intro conjI impI)
  from assms(2) have same: "map_option convertedValue (deref h config k) = deref h config k"
    by (simp add: getProp_propValue map_convertedValue_not_string)
  with assms(1) have "convertedObj multilineVars (deref h config) k = deref h config k"
    by (simp add: convertedObj_apply)
  then
  show "\<exists>h1. forEach multilineVars (convertVar (snd (spread h config))) (fst (spread h config))
            = Inr h1 \<and>
          deref h1 (snd (spread h config)) k = deref h config k"
    by (simp add: spread_parts forEach_convertVar_last deref_last)
  {
    assume "\<not> truthy (getProp h config (lowerVariant k))"
    then have "\<not> truthy (propValue (deref h config) (lowerVariant k))"
      by (simp add: getProp_propValue)
    with assms(1)
    have "normalized (deref h config) k = map_option convertedValue (deref h config k)"
      by (rule normalized_unmerged)
    with same
    show "\<exists>h' p. processEnvVars h config = Inr (h', p) \<and> deref h' p k = deref h config k"
      by (simp add: processEnvVars_eq deref_last)
  }
  {
    assume moved: "(k, upper) \<in> set caseVariants \<and> truthy (getProp h config k)"
    then have pair: "(k, upper) \<in> set caseVariants"
      and lower_truthy: "truthy (propValue (deref h config) k)"
      by (simp_all add: getProp_propValue)
    from lower_truthy obtain v where bound: "deref h config k = Some v"
      by (cases "deref h config k") (simp_all add: propValue_def)
    with assms(2) have "convertedValue v = v"
      by (simp add: getProp_def convertedValue_not_string)
    with lower_truthy bound have "normalized (deref h config) upper = deref h config k"
      by (simp add: normalized_upper [OF pair] propValue_def)
    moreover from lower_truthy have "normalized (deref h config) k = None"
      by (simp add: normalized_lower [OF pair])
    ultimately
    show "\<exists>h' p. processEnvVars h config = Inr (h', p) \<and>
            deref h' p upper = deref h config k \<and> deref h' p k = None"
      by (simp add: processEnvVars_eq deref_last)
  }
  {
    assume rebound: "(lower, k) \<in> set caseVariants \<and> truthy (getProp h config lower)"
    then have pair: "(lower, k) \<in> set caseVariants"
      and lower_truthy: "truthy (propValue (deref h config) lower)"
      by (simp_all add: getProp_propValue)
    then have "normalized (deref h config) k =
        Some (convertedValue (propValue (deref h config) lower))"
      by (simp add: normalized_upper [OF pair])
    then
    show "\<exists>h' p. processEnvVars h config = Inr (h', p) \<and>
            deref h' p k = Some (convertedValue (getProp h config lower))"
      by (simp add: processEnvVars_eq deref_last getProp_propValue)
  }
qed

theorem processEnvVars_keeps_non_strings_witness:
  "(\<exists>h1. forEach multilineVars (convertVar (snd (spread [[''JWT_PUBLIC_KEY'' \<mapsto> JNum 5]] 0)))
            (fst (spread [[''JWT_PUBLIC_KEY'' \<mapsto> JNum 5]] 0)) = Inr h1 \<and>
          deref h1 (snd (spread [[''JWT_PUBLIC_KEY'' \<mapsto> JNum 5]] 0)) ''JWT_PUBLIC_KEY'' =
            Some (JNum 5)) \<and>
   (\<exists>h' p. processEnvVars [[''JWT_PUBLIC_KEY'' \<mapsto> JNum 5]] 0 = Inr (h', p) \<and>
          deref h' p ''JWT_PUBLIC_KEY'' = Some (JNum 5)) \<and>
   (\<exists>h' p. processEnvVars [[''JWT_PUBLIC_KEY'' \<mapsto> JNum 5]] 0 = Inr (h', p) \<and>
          deref h' p ''JWT_PRIVATE_KEY'' = None) \<and>
   (\<exists>h' p. processEnvVars [[''jwt_public_key'' \<mapsto> JNum 5]] 0 = Inr (h', p) \<and>
          deref h' p ''JWT_PUBLIC_KEY'' = Some (JNum 5) \<and>
          deref h' p ''jwt_public_key'' = None) \<and>
   (\<exists>h' p. processEnvVars
          [[''JWT_PUBLIC_KEY'' \<mapsto> JNum 5, ''jwt_public_key'' \<mapsto> JStr (''x'' @ [backslash] @ ''ny'')]] 0
            = Inr (h', p) \<and>
          deref h' p ''JWT_PUBLIC_KEY'' = Some (JStr (''x'' @ [newline] @ ''y'')))"
  using processEnvVars_keeps_non_strings
      [of "''JWT_PUBLIC_KEY''" "[[''JWT_PUBLIC_KEY'' \<mapsto> JNum 5]]" 0
        "''JWT_PUBLIC_KEY''" "''jwt_public_key''"]
    processEnvVars_keeps_non_strings
      [of "''JWT_PRIVATE_KEY''" "[[''JWT_PUBLIC_KEY'' \<mapsto> JNum 5]]" 0
        "''JWT_PRIVATE_KEY''" "''jwt_private_key''"]
    processEnvVars_keeps_non_strings
      [of "''jwt_public_key''" "[[''jwt_public_key'' \<mapsto> JNum 5]]" 0
        "''JWT_PUBLIC_KEY''" "''jwt_public_key''"]
    processEnvVars_keeps_non_strings
      [of "''JWT_PUBLIC_KEY''"
        "[[''JWT_PUBLIC_KEY'' \<mapsto> JNum 5, ''jwt_public_key'' \<mapsto> JStr (''x'' @ [backslash] @ ''ny'')]]" 0
        "''JWT_PUBLIC_KEY''" "''jwt_public_key''"]
  by (simp add: multilineVars_def caseVariants_def deref_def getProp_def lowerVariant_def
      convertedValue_def special_chars_distinct)

text \<open>
  C7 as stated speaks of the normalizer's output with no exception for the case merge.
  A canonical key bound to the number 5 is bound to 7 in the output when the lowercase
  variant is bound to 7; and a canonical key that is absent is present in the output when
  the lowercase variant is bound to a non-empty string.
\<close>

theorem processEnvVars_rebinds_canonical_key:
  "processEnvVars [[''JWT_PUBLIC_KEY'' \<mapsto> JNum 5, ''jwt_public_key'' \<mapsto> JNum 7]] 0 =
     Inr ([[''JWT_PUBLIC_KEY'' \<mapsto> JNum 5, ''jwt_public_key'' \<mapsto> JNum 7],
           [''JWT_PUBLIC_KEY'' \<mapsto> JNum 7]], 1) \<and>
   processEnvVars [[''jwt_public_key'' \<mapsto> JStr ''x'']] 0 =
     Inr ([[''jwt_public_key'' \<mapsto> JStr ''x''], [''JWT_PUBLIC_KEY'' \<mapsto> JStr ''x'']], 1)"
  by (simp add: processEnvVars_eq deref_def normalized_def mergedObj_def convertedObj_def
      propValue_def convertedValue_def multilineVars_def fun_eq_iff)

subsection \<open>The normalizer: merging the lowercase variants\<close>

text \<open>
  C2, as the code has it. For every configuration mapping in which a lowercase variant
  (\<^verbatim>\<open>jwt_private_key\<close>, \<^verbatim>\<open>jwt_public_key\<close> or \<^verbatim>\<open>jwt_refresh_token_private_key\<close>)
  has a truthy value, the output binds the canonical uppercase key to that value, with its
  newlines converted when it is a string, and does not contain the lowercase key; this
  holds whether or not the canonical key was present, so the lowercase value overwrites
  the canonical one. A lowercase variant whose value is falsy (the empty string, 0,
  \<^verbatim>\<open>false\<close>, \<^verbatim>\<open>null\<close>, \<^verbatim>\<open>undefined\<close>, NaN), like an absent one, is not merged:
  the output binds the lowercase key as the input does, and binds the canonical key to
  its own input value, with its newlines converted when it is a string, or leaves it
  absent when the input does.
\<close>

theorem processEnvVars_merges_truthy_lowercase:
  assumes "(lower, upper) \<in> set caseVariants"
  shows "(truthy (getProp h config lower) \<longrightarrow>
          (\<exists>h' p. processEnvVars h config = Inr (h', p) \<and>
            deref h' p upper = Some (convertedValue (getProp h config lower)) \<and>
            deref h' p lower = None)) \<and>
         (\<not> truthy (getProp h config lower) \<longrightarrow>
          (\<exists>h' p. processEnvVars h config = Inr (h', p) \<and>
            deref h' p lower = deref h config lower \<and>
            deref h' p upper = map_option convertedValue (deref h config upper)))"
proof (intro conjI impI)
  assume "truthy (getProp h config lower)"
  then have "truthy (propValue (deref h config) lower)"
    by (simp add: getProp_propValue)
  with assms have "normalized (deref h config) upper =
        Some (convertedValue (propValue (deref h config) lower))"
    and "normalized (deref h config) lower = None"
    by (simp_all add: normalized_upper normalized_lower)
  then show "\<exists>h' p. processEnvVars h config = Inr (h', p) \<and>
            deref h' p upper = Some (convertedValue (getProp h config lower)) \<and>
            deref h' p lower = None"
    by (simp add: processEnvVars_eq deref_last getProp_propValue)
next
  assume "\<not> truthy (getProp h config lower)"
  then have "\<not> truthy (propValue (deref h config) lower)"
    by (simp add: getProp_propValue)
  with assms have "normalized (deref h config) lower = deref h config lower"
    and "normalized (deref h config) upper = map_option convertedValue (deref h config upper)"
    by (simp_all add: normalized_upper normalized_lower)
  then show "\<exists>h' p. processEnvVars h config = Inr (h', p) \<and>
            deref h' p lower = deref h config lower \<and>
            deref h' p upper = map_option convertedValue (deref h config upper)"
    by (simp add: processEnvVars_eq deref_last)
qed

theorem processEnvVars_merges_truthy_lowercase_witness:
  "(\<exists>h' p. processEnvVars [[''jwt_public_key'' \<mapsto> JStr (''x'' @ [backslash] @ ''ny'')]] 0 = Inr (h', p) \<and>
      deref h' p ''JWT_PUBLIC_KEY'' = Some (JStr (''x'' @ [newline] @ ''y'')) \<and>
      deref h' p ''jwt_public_key'' = None) \<and>
   (\<exists>h' p. processEnvVars
        [[''JWT_PRIVATE_KEY'' \<mapsto> JStr ''old'', ''jwt_private_key'' \<mapsto> JStr ''new'']] 0 = Inr (h', p) \<and>
      deref h' p ''JWT_PRIVATE_KEY'' = Some (JStr ''new'') \<and>
      deref h' p ''jwt_private_key'' = None) \<and>
   (\<exists>h' p. processEnvVars
        [[''JWT_PUBLIC_KEY'' \<mapsto> JStr (''k'' @ [backslash] @ ''n''), ''jwt_public_key'' \<mapsto> JNum 0]] 0
          = Inr (h', p) \<and>
      deref h' p ''jwt_public_key'' = Some (JNum 0) \<and>
      deref h' p ''JWT_PUBLIC_KEY'' = Some (JStr (''k'' @ [newline]))) \<and>
   (\<exists>h' p. processEnvVars [[''jwt_private_key'' \<mapsto> JNull]] 0 = Inr (h', p) \<and>
      deref h' p ''jwt_private_key'' = Some JNull \<and>
      deref h' p ''JWT_PRIVATE_KEY'' = None)"
  using processEnvVars_merges_truthy_lowercase
    [of "''jwt_public_key''" "''JWT_PUBLIC_KEY''"
      "[[''jwt_public_key'' \<mapsto> JStr (''x'' @ [backslash] @ ''ny'')]]" 0]
    processEnvVars_merges_truthy_lowercase
    [of "''jwt_private_key''" "''JWT_PRIVATE_KEY''"
      "[[''JWT_PRIVATE_KEY'' \<mapsto> JStr ''old'', ''jwt_private_key'' \<mapsto> JStr ''new'']]" 0]
    processEnvVars_merges_truthy_lowercase
    [of "''jwt_public_key''" "''JWT_PUBLIC_KEY''"
      "[[''JWT_PUBLIC_KEY'' \<mapsto> JStr (''k'' @ [backslash] @ ''n''), ''jwt_public_key'' \<mapsto> JNum 0]]" 0]
    processEnvVars_merges_truthy_lowercase
    [of "''jwt_private_key''" "''JWT_PRIVATE_KEY''" "[[''jwt_private_key'' \<mapsto> JNull]]" 0]
  by (simp add: caseVariants_def getProp_def deref_def convertedValue_def special_chars_distinct)

text \<open>
  C2 as stated speaks of a lowercase key that is present. The code tests the value's
  truthiness: a lowercase key bound to the empty string is present, and the output still
  contains it and binds no canonical key.
\<close>

theorem processEnvVars_keeps_empty_lowercase:
  "processEnvVars [[''jwt_public_key'' \<mapsto> JStr []]] 0 =
     Inr ([[''jwt_public_key'' \<mapsto> JStr []], [''jwt_public_key'' \<mapsto> JStr []]], 1) \<and>
   [''jwt_public_key'' \<mapsto> JStr []] ''jwt_public_key'' = Some (JStr []) \<and>
   [''jwt_public_key'' \<mapsto> JStr []] ''JWT_PUBLIC_KEY'' = None"
  by (simp add: processEnvVars_def spread_def deref_def multilineVars_def convertVar_def
      mergeCase_def getProp_def)

subsection \<open>The normalizer: algebraic and frame properties\<close>

text \<open>
  C4. The normalizer is idempotent: on every store and every configuration mapping the
  call returns, the call on the returned mapping returns as well, and the second result
  is equal, key by key, to the first.
\<close>

theorem processEnvVars_idempotent:
  "\<exists>h1 p1 h2 p2. processEnvVars h config = Inr (h1, p1) \<and>
     processEnvVars h1 p1 = Inr (h2, p2) \<and> deref h2 p2 = deref h1 p1"
proof -
  let ?h1 = "h @ [normalized (deref h config)]"
  have "processEnvVars ?h1 (length h) = Inr (?h1 @ [normalized (normalized (deref h config))], length ?h1)"
    by (simp only: processEnvVars_eq [of ?h1 "length h"] deref_last)
  moreover have "deref (?h1 @ [normalized (normalized (deref h config))]) (length ?h1) =
      deref ?h1 (length h)"
    by (simp only: deref_last normalized_idem)
  ultimately show ?thesis
    using processEnvVars_eq [of h config] by blast
qed

text \<open>
  C8. For every configuration mapping and every key that is not one of the six targeted
  names, the output binds the key to exactly the value the input binds it to, and leaves
  it absent when the input does.
\<close>

theorem processEnvVars_passes_other_keys:
  assumes "k \<notin> set multilineVars"
  shows "\<exists>h' p. processEnvVars h config = Inr (h', p) \<and> deref h' p k = deref h config k"
  using assms by (simp add: processEnvVars_eq deref_last normalized_other)

theorem processEnvVars_passes_other_keys_witness:
  "\<exists>h' p. processEnvVars [[''PORT'' \<mapsto> JStr ''3000'', ''JWT_PUBLIC_KEY'' \<mapsto> JStr ''k'']] 0 = Inr (h', p) \<and>
     deref h' p ''PORT'' = Some (JStr ''3000'')"
  using processEnvVars_passes_other_keys
    [of "''PORT''" "[[''PORT'' \<mapsto> JStr ''3000'', ''JWT_PUBLIC_KEY'' \<mapsto> JStr ''k'']]" 0]
  by (simp add: multilineVars_def deref_def)

text \<open>
  C5. For every configuration mapping in the store, the normalizer returns the address of
  a new object, one that the store did not hold before the call, and after the call the
  input mapping, like every other object the store held, has exactly the keys and values
  it had before.
\<close>

theorem processEnvVars_input_untouched:
  assumes "config < length h"
  shows "\<exists>h' p. processEnvVars h config = Inr (h', p) \<and>
           length h \<le> p \<and> p \<noteq> config \<and>
           deref h' config = deref h config \<and> take (length h) h' = h"
  using assms by (simp add: processEnvVars_eq deref_old)

theorem processEnvVars_input_untouched_witness:
  "\<exists>h' p. processEnvVars [[''jwt_public_key'' \<mapsto> JStr ''k'']] 0 = Inr (h', p) \<and>
     1 \<le> p \<and> p \<noteq> 0 \<and>
     deref h' 0 = deref [[''jwt_public_key'' \<mapsto> JStr ''k'']] 0 \<and>
     take 1 h' = [[''jwt_public_key'' \<mapsto> JStr ''k'']]"
  using processEnvVars_input_untouched [of 0 "[[''jwt_public_key'' \<mapsto> JStr ''k'']]"]
  by simp

text \<open>
  C6. For every configuration mapping that contains none of the six targeted names, the
  output is equal to the input, key by key.
\<close>

theorem processEnvVars_identity_without_jwt_keys:
  assumes "\<forall>k \<in> set multilineVars. k \<notin> dom (deref h config)"
  shows "\<exists>h' p. processEnvVars h config = Inr (h', p) \<and> deref h' p = deref h config"
proof -
  from assms have "\<forall>k \<in> set multilineVars. deref h config k = None"
    by (simp add: domIff)
  then have "normalized (deref h config) = deref h config"
    by (rule normalized_untargeted)
  then show ?thesis
    by (simp add: processEnvVars_eq deref_last)
qed

theorem processEnvVars_identity_without_jwt_keys_witness:
  "\<exists>h' p. processEnvVars [[''PORT'' \<mapsto> JStr ''3000'', ''DEBUG'' \<mapsto> JBool False]] 0 = Inr (h', p) \<and>
     deref h' p = [''PORT'' \<mapsto> JStr ''3000'', ''DEBUG'' \<mapsto> JBool False]"
  using processEnvVars_identity_without_jwt_keys
    [of "[[''PORT'' \<mapsto> JStr ''3000'', ''DEBUG'' \<mapsto> JBool False]]" 0]
  by (simp add: multilineVars_def deref_def)

subsection \<open>Neither operation signals a fault\<close>

text \<open>
  C9. The normalizer returns on every store and every configuration mapping: the one call
  that could throw, \<^verbatim>\<open>replace\<close>, is made on strings only. The path resolver has no
  failing branch of its own: it returns whenever \<^verbatim>\<open>path.resolve\<close> returns on strings.
\<close>

theorem no_fault_signaled:
  "(\<exists>h' p. processEnvVars h config = Inr (h', p)) \<and>
   ((\<forall>s. \<exists>p. resolve s = Inr p) \<longrightarrow> (\<exists>p. getEnvPath resolve env dest = Inr p))"
  by (simp add: processEnvVars_eq getEnvPath_def)

theorem no_fault_signaled_witness:
  "(\<exists>h' p. processEnvVars
       [[''JWT_PRIVATE_KEY'' \<mapsto> JNull, ''jwt_public_key'' \<mapsto> JObject 0, ''PORT'' \<mapsto> JNaN]] 0 = Inr (h', p)) \<and>
   (\<exists>p. getEnvPath (\<lambda>s. Inr (''/srv/'' @ s)) (Some ''production'') ''app'' = Inr p)"
  using no_fault_signaled
    [of "[[''JWT_PRIVATE_KEY'' \<mapsto> JNull, ''jwt_public_key'' \<mapsto> JObject 0, ''PORT'' \<mapsto> JNaN]]" 0
      "\<lambda>s. Inr (''/srv/'' @ s)" "Some ''production''" "''app''"]
  by simp

end
